theory Spec2Isabelle
  imports Main "HOL-Library.Sublist"
begin

section \<open>Data and constants of contestthumbnailer.py\<close>

text \<open>
  Python's \<^verbatim>\<open>str\<close> is modelled by \<^typ>\<open>string\<close>, its unbounded integers by \<^typ>\<open>int\<close>.
  A raised exception is the \<open>Inl\<close> side of a sum. Console output (\<^verbatim>\<open>print\<close>) is not
  modelled.
\<close>

datatype py_error = ReError | IndexError | ValueError | KeyError | RemoteError

definition backslash :: char where
  "backslash = CHR 0x5C"

definition REGEX_IMAGE_URL :: string where
  "REGEX_IMAGE_URL =
     ''((?:https://.*'' @ [backslash] @ ''.(?:gif|jpg|png|jpeg))|(?:https://images'' @
     [backslash] @ ''.hive'' @ [backslash] @ ''.blog/p/[A-Za-z0-9_'' @ [backslash] @ ''-@'' @
     [backslash] @ ''/]*)|(?:https://images'' @ [backslash] @ ''.ecency'' @ [backslash] @
     ''.com/p/[A-Za-z0-9_'' @ [backslash] @ ''-@'' @ [backslash] @ ''/]*))''"

definition REGEX_POST_URL :: string where
  "REGEX_POST_URL =
     ''(https://(?:peakd'' @ [backslash] @ ''.com|hive'' @ [backslash] @ ''.blog|ecency'' @
     [backslash] @ ''.com)/[a-z0-9_'' @ [backslash] @ ''-@'' @ [backslash] @ ''/'' @
     [backslash] @ ''.]*)''"

definition DEFAULT_IMAGE_URL :: string where
  "DEFAULT_IMAGE_URL =
     ''https://files.peakd.com/file/peakd-hive/quantumg/23tSh9ZCk2m46Yy9XQeQErkwL99fsdQjsxH9A6T4WKyi7BCDs3y4Q6pE3zMfDF4ggv5TS.png''"

definition MAX_THUMBNAIL_WIDTH_IN_IMAGE :: int where
  "MAX_THUMBNAIL_WIDTH_IN_IMAGE = 160"

definition THUMBNAIL_MARGIN_IN_IMAGE :: int where
  "THUMBNAIL_MARGIN_IN_IMAGE = 10"

definition MAX_THUMBNAILS_PER_ROW_IN_IMAGE :: int where
  "MAX_THUMBNAILS_PER_ROW_IN_IMAGE = 20"

definition THUMBNAIL_LABEL_COLOR :: "int \<times> int \<times> int" where
  "THUMBNAIL_LABEL_COLOR = (255, 255, 255)"

definition THUMBNAIL_POSTER_COLOR :: "int \<times> int \<times> int \<times> int" where
  "THUMBNAIL_POSTER_COLOR = (0, 0, 0, 0)"

definition AUTHOR_BLACKLIST :: "string list" where
  "AUTHOR_BLACKLIST = [
    ''abdt'', ''abiproud'', ''adebayo22'', ''airscam00'', ''aliframadhan'', ''aniascs'',
    ''anne0208'', ''aris-indonesia'', ''artrage'', ''assegai'', ''ayahdindin'',
    ''belovedave'', ''boeh-u-leuping'', ''bulukat2seung'', ''camila-jhon'', ''captain70'',
    ''chipino'', ''daniella619'', ''danladi'', ''deep.crypto'', ''dreamchasers'',
    ''dwixer'', ''ellenklech'', ''emerline'', ''ferart01'', ''fibre1'', ''filipz'',
    ''findoutmark'', ''fudin-jfr'', ''fundin-jfr'', ''gabriella3594'', ''getovertools'',
    ''ghinamidrara'', ''giftjames'', ''gomessteem'', ''hafis'', ''hardiericsson'',
    ''herman-sbd'', ''holy.moly'', ''iamdenny'', ''icon-bassey'', ''jhokenecty'',
    ''kadyrova'', ''kalkulus001'', ''kamariah'', ''kater001'', ''khantika'',
    ''kingobonnaya'', ''lamboe'', ''lexi01'', ''lilpen'', ''loco88'', ''mawalampoehbujok'',
    ''mcaspectacular'', ''mcluz'', ''mizuno35'', ''mnzie01'', ''mochi3'', ''morenxo'',
    ''nabilswap'', ''nekbungoeng'', ''nellysteem'', ''nodzz'', ''nurudeen081'',
    ''oan-iata'', ''oliver-liam'', ''olenaginal'', ''ontarget0'', ''owleeya'',
    ''peazy001'', ''pictz'', ''poundrickshaw'', ''princedave12'', ''quimby-art'',
    ''raquel19'', ''realmaya'', ''sintiana'', ''starksteem'', ''steps100'',
    ''tailah.bayu1'', ''technoart'', ''techy22'', ''tember'', ''twenty4'', ''v0lga'',
    ''vareya'', ''weenyqueen'', ''weirdartist'', ''whizchick'', ''yoe1974'']"

text \<open>Of a decoded bitmap only \<^verbatim>\<open>size\<close>, the pair (width, height), is read.\<close>

record image =
  im_size :: "int \<times> int"

text \<open>
  A parsed comment is a dictionary. \<^verbatim>\<open>_parseCommentBody\<close> creates it with the keys
  \<^verbatim>\<open>postUrl\<close>, \<^verbatim>\<open>imageUrl\<close> and \<^verbatim>\<open>author\<close>, \<^verbatim>\<open>_parseComments\<close> adds \<^verbatim>\<open>isDefaultImage\<close>, and
  the download stage adds \<^verbatim>\<open>imageObject\<close>.
\<close>

record parsedBody =
  postUrl :: string
  imageUrl :: string
  author :: string

record parsedComment = parsedBody +
  isDefaultImage :: bool

record parsedCommentWithImage = parsedComment +
  imageObject :: image

text \<open>A comment of the feed, of which the attributes \<^verbatim>\<open>author\<close> and \<^verbatim>\<open>body\<close> are read.\<close>

record comment =
  comment_author :: string
  comment_body :: string

section \<open>Python string operations\<close>

text \<open>
  \<^verbatim>\<open>s.replace(old, new)\<close> replaces the non-overlapping occurrences of \<^verbatim>\<open>old\<close> from left to
  right; with an empty \<^verbatim>\<open>old\<close> it puts \<^verbatim>\<open>new\<close> before every character and at the end.
\<close>

function replace_scan :: "string \<Rightarrow> string \<Rightarrow> string \<Rightarrow> string" where
  "replace_scan old new [] = []"
| "replace_scan old new (c # cs) =
     (if old \<noteq> [] \<and> prefix old (c # cs)
      then new @ replace_scan old new (drop (length old) (c # cs))
      else c # replace_scan old new cs)"
  by pat_completeness auto
termination
  by (relation "measure (\<lambda>(old, new, s). length s)") auto

definition replace :: "string \<Rightarrow> string \<Rightarrow> string \<Rightarrow> string" where
  "replace s old new =
     (if old = [] then new @ concat (map (\<lambda>c. c # new) s) else replace_scan old new s)"

text \<open>\<^verbatim>\<open>needle in hay\<close> on strings.\<close>

fun contains :: "string \<Rightarrow> string \<Rightarrow> bool" where
  "contains needle [] = (needle = [])"
| "contains needle (c # cs) = (prefix needle (c # cs) \<or> contains needle cs)"

section \<open>Thumbnail poster layout\<close>

subsection \<open>Pass 1: the height of the poster\<close>

text \<open>
  The loop of \<^verbatim>\<open>_calculateImageHeightByParsedComments\<close> keeps three variables. One
  iteration is \<open>pass1_step\<close>; the test \<^verbatim>\<open>col >= columns\<close> that it makes after the
  increment of \<^verbatim>\<open>col\<close> is \<open>pass1_wraps\<close>.
\<close>

record pass1_state =
  height1 :: int
  col1 :: int
  largest1 :: int

definition pass1_init :: pass1_state where
  "pass1_init = \<lparr>height1 = THUMBNAIL_MARGIN_IN_IMAGE, col1 = 0, largest1 = 0\<rparr>"

definition pass1_wraps :: "int \<Rightarrow> pass1_state \<Rightarrow> bool" where
  "pass1_wraps columns s = (col1 s + 1 \<ge> columns)"

definition pass1_step :: "int \<Rightarrow> pass1_state \<Rightarrow> parsedCommentWithImage \<Rightarrow> pass1_state" where
  "pass1_step columns s parsedComment =
     (let imageHeight = snd (im_size (imageObject parsedComment)) + THUMBNAIL_MARGIN_IN_IMAGE
      in if pass1_wraps columns s
         then \<lparr>height1 = height1 s + largest1 s, col1 = 0, largest1 = 0\<rparr>
         else \<lparr>height1 = height1 s, col1 = col1 s + 1,
               largest1 = (if largest1 s < imageHeight then imageHeight else largest1 s)\<rparr>)"

fun pass1_loop :: "int \<Rightarrow> pass1_state \<Rightarrow> parsedCommentWithImage list \<Rightarrow> pass1_state" where
  "pass1_loop columns s [] = s"
| "pass1_loop columns s (parsedComment # rest) =
     pass1_loop columns (pass1_step columns s parsedComment) rest"

definition calculateImageHeightByParsedComments ::
  "parsedCommentWithImage list \<Rightarrow> int \<Rightarrow> int" where
  "calculateImageHeightByParsedComments parsedCommentsWithImages columns =
     (let s = pass1_loop columns pass1_init parsedCommentsWithImages;
          height = (if col1 s > 0
                    then height1 s + (largest1 s + THUMBNAIL_MARGIN_IN_IMAGE)
                    else height1 s)
      in height + THUMBNAIL_MARGIN_IN_IMAGE)"

subsection \<open>Pass 2: placing the thumbnails\<close>

text \<open>
  \<^verbatim>\<open>_createThumbnailPoster\<close> pastes each thumbnail at the cursor and draws the author's name
  twice. What it draws is kept as a list of operations. \<^verbatim>\<open>Image.new\<close> refuses a negative
  width or height with a \<^verbatim>\<open>ValueError\<close>; the font file is taken to be present.
\<close>

datatype draw_op =
    Paste image "int \<times> int"
  | DrawText "int \<times> int" string "int \<times> int \<times> int"

record poster =
  canvas_size :: "int \<times> int"
  canvas_color :: "int \<times> int \<times> int \<times> int"
  drawn :: "draw_op list"

record pass2_state =
  xy2 :: "int \<times> int"
  col2 :: int
  largest2 :: int

definition pass2_init :: pass2_state where
  "pass2_init =
     \<lparr>xy2 = (THUMBNAIL_MARGIN_IN_IMAGE, THUMBNAIL_MARGIN_IN_IMAGE), col2 = 0, largest2 = 0\<rparr>"

definition pass2_draws :: "pass2_state \<Rightarrow> parsedCommentWithImage \<Rightarrow> draw_op list" where
  "pass2_draws s parsedComment =
     [Paste (imageObject parsedComment) (xy2 s),
      DrawText (fst (xy2 s) + 3, snd (xy2 s) + 3) (author parsedComment) (0, 0, 0),
      DrawText (fst (xy2 s) + 2, snd (xy2 s) + 2) (author parsedComment) THUMBNAIL_LABEL_COLOR]"

definition pass2_wraps :: "pass2_state \<Rightarrow> bool" where
  "pass2_wraps s = (col2 s + 1 \<ge> MAX_THUMBNAILS_PER_ROW_IN_IMAGE)"

definition pass2_step :: "pass2_state \<Rightarrow> parsedCommentWithImage \<Rightarrow> pass2_state" where
  "pass2_step s parsedComment =
     (let thumbnail = imageObject parsedComment;
          xy = (fst (xy2 s) + THUMBNAIL_MARGIN_IN_IMAGE + fst (im_size thumbnail), snd (xy2 s));
          largest = (if largest2 s < snd (im_size thumbnail)
                     then snd (im_size thumbnail) else largest2 s)
      in if pass2_wraps s
         then \<lparr>xy2 = (THUMBNAIL_MARGIN_IN_IMAGE, snd xy + THUMBNAIL_MARGIN_IN_IMAGE + largest),
               col2 = 0, largest2 = 0\<rparr>
         else \<lparr>xy2 = xy, col2 = col2 s + 1, largest2 = largest\<rparr>)"

fun pass2_loop :: "pass2_state \<Rightarrow> parsedCommentWithImage list \<Rightarrow> draw_op list" where
  "pass2_loop s [] = []"
| "pass2_loop s (parsedComment # rest) =
     pass2_draws s parsedComment @ pass2_loop (pass2_step s parsedComment) rest"

definition createThumbnailPoster ::
  "parsedCommentWithImage list \<Rightarrow> int \<Rightarrow> int \<Rightarrow> py_error + (bool \<times> poster)" where
  "createThumbnailPoster parsedCommentsWithImage thumbnailWidth columns =
     (let size = (((thumbnailWidth + THUMBNAIL_MARGIN_IN_IMAGE) * columns)
                    + THUMBNAIL_MARGIN_IN_IMAGE,
                  calculateImageHeightByParsedComments parsedCommentsWithImage columns)
      in if fst size < 0 \<or> snd size < 0 then Inl ValueError
         else Inr (True, \<lparr>canvas_size = size, canvas_color = THUMBNAIL_POSTER_COLOR,
                          drawn = pass2_loop pass2_init parsedCommentsWithImage\<rparr>))"

subsection \<open>The rows of the two passes\<close>

text \<open>
  The rows of a pass, read off its loop: the wrap flags record for each thumbnail
  whether the iteration that handled it took the branch that ends the row, and
  \<open>rows_of_wraps\<close> numbers the rows, a thumbnail being in the row that was open when its
  iteration began.
\<close>

fun pass1_wrap_flags :: "int \<Rightarrow> pass1_state \<Rightarrow> parsedCommentWithImage list \<Rightarrow> bool list" where
  "pass1_wrap_flags columns s [] = []"
| "pass1_wrap_flags columns s (parsedComment # rest) =
     pass1_wraps columns s # pass1_wrap_flags columns (pass1_step columns s parsedComment) rest"

fun pass2_wrap_flags :: "pass2_state \<Rightarrow> parsedCommentWithImage list \<Rightarrow> bool list" where
  "pass2_wrap_flags s [] = []"
| "pass2_wrap_flags s (parsedComment # rest) =
     pass2_wraps s # pass2_wrap_flags (pass2_step s parsedComment) rest"

fun rows_of_wraps :: "nat \<Rightarrow> bool list \<Rightarrow> nat list" where
  "rows_of_wraps r [] = []"
| "rows_of_wraps r (w # ws) = r # rows_of_wraps (if w then Suc r else r) ws"

definition pass1_rows :: "int \<Rightarrow> parsedCommentWithImage list \<Rightarrow> nat list" where
  "pass1_rows columns parsedCommentsWithImages =
     rows_of_wraps 0 (pass1_wrap_flags columns pass1_init parsedCommentsWithImages)"

definition pass2_rows :: "parsedCommentWithImage list \<Rightarrow> nat list" where
  "pass2_rows parsedCommentsWithImage =
     rows_of_wraps 0 (pass2_wrap_flags pass2_init parsedCommentsWithImage)"

text \<open>A thumbnail of the given pixel height (and of the default width), for concrete inputs.\<close>

definition thumb :: "int \<Rightarrow> parsedCommentWithImage" where
  "thumb h = \<lparr>postUrl = ''https://peakd.com/hive-174695/@a/b'',
              imageUrl = ''https://files.peakd.com/a.png'',
              author = ''a'', isDefaultImage = False,
              imageObject = \<lparr>im_size = (MAX_THUMBNAIL_WIDTH_IN_IMAGE, h)\<rparr>\<rparr>"

section \<open>Extracting and filtering the entries\<close>

subsection \<open>The regular expression library\<close>

text \<open>
  \<^verbatim>\<open>re.search(regex, text, re.MULTILINE)\<close> belongs to Python's library and is a parameter
  of the model: given the pattern and the text it raises \<^verbatim>\<open>re.error\<close> (the pattern does not
  compile), returns \<^verbatim>\<open>None\<close> (no match), or returns a match object. A match object holds
  the whole match and the capture groups of the pattern, a group that took no part in the
  match being \<^verbatim>\<open>None\<close>. \<^verbatim>\<open>group(n)\<close> raises \<^verbatim>\<open>IndexError\<close> when the pattern has no group
  \<^verbatim>\<open>n\<close>.
\<close>

datatype re_match = Match string "string option list"

type_synonym re_search = "string \<Rightarrow> string \<Rightarrow> py_error + re_match option"

fun group :: "re_match \<Rightarrow> nat \<Rightarrow> py_error + string option" where
  "group (Match whole groups) n =
     (if n = 0 then Inr (Some whole)
      else if n \<le> length groups then Inr (groups ! (n - 1))
      else Inl IndexError)"

definition findByRegex :: "re_search \<Rightarrow> string \<Rightarrow> string \<Rightarrow> py_error + string" where
  "findByRegex search text regex =
     (case search regex text of
        Inl e \<Rightarrow> Inl e
      | Inr None \<Rightarrow> Inr ''''
      | Inr (Some matches) \<Rightarrow>
          (case group matches 1 of
             Inl e \<Rightarrow> (if e = IndexError then Inr '''' else Inl e)
           | Inr None \<Rightarrow> Inr ''''
           | Inr (Some g) \<Rightarrow> (if g = '''' then Inr '''' else Inr g)))"

definition parseCommentBody :: "re_search \<Rightarrow> comment \<Rightarrow> py_error + parsedBody" where
  "parseCommentBody search comment =
     (case findByRegex search (comment_body comment) REGEX_POST_URL of
        Inl e \<Rightarrow> Inl e
      | Inr p \<Rightarrow>
          (case findByRegex search (comment_body comment) REGEX_IMAGE_URL of
             Inl e \<Rightarrow> Inl e
           | Inr i \<Rightarrow>
               Inr \<lparr>postUrl = p,
                    imageUrl = replace i ''https://images.hive.blog/0x0/'' '''',
                    author = comment_author comment\<rparr>))"

subsection \<open>The endorsement lookup and the loop of \<^verbatim>\<open>_parseComments\<close>\<close>

text \<open>
  \<^verbatim>\<open>str(Comment(hivePermlink).get_votes())\<close> is a remote call and the second parameter of
  the model: from the state of the outside world and the permlink it gives the printed
  votes, or an exception, and the next state of the world. The bare \<^verbatim>\<open>except\<close> of the
  source catches every exception of the call.
\<close>

type_synonym 'w get_votes = "'w \<Rightarrow> string \<Rightarrow> (py_error + string) \<times> 'w"

definition normalizePostUrl :: "string \<Rightarrow> string" where
  "normalizePostUrl url =
     replace (replace url ''https://hive.blog'' ''https://peakd.com'')
       ''https://ecency.com'' ''https://peakd.com''"

definition hivePermlink_of :: "string \<Rightarrow> string" where
  "hivePermlink_of url = replace url ''https://peakd.com/hive-174695/'' ''''"

text \<open>
  One iteration of the loop. \<open>None\<close> is a \<^verbatim>\<open>continue\<close>, \<open>Some\<close> the dictionary that is
  appended to the result.
\<close>

definition parseComments_body ::
  "re_search \<Rightarrow> 'w get_votes \<Rightarrow> 'w \<Rightarrow> comment \<Rightarrow> py_error + (parsedComment option \<times> 'w)" where
  "parseComments_body search get_votes w comment =
     (if comment_author comment \<in> set AUTHOR_BLACKLIST then Inr (None, w)
      else
        case parseCommentBody search comment of
          Inl e \<Rightarrow> Inl e
        | Inr b \<Rightarrow>
            (let parsedComment = \<lparr>postUrl = postUrl b, imageUrl = imageUrl b,
                                  author = author b, isDefaultImage = False\<rparr>
             in if postUrl parsedComment = '''' then Inr (None, w)
                else
                  let parsedComment =
                        parsedComment\<lparr>postUrl := normalizePostUrl (postUrl parsedComment)\<rparr>;
                      hivePermlink = hivePermlink_of (postUrl parsedComment);
                      (votes, w') = get_votes w hivePermlink
                  in case votes of
                       Inl e \<Rightarrow> Inr (None, w')
                     | Inr v \<Rightarrow>
                         if \<not> contains ''lmac'' v then Inr (None, w')
                         else if imageUrl parsedComment = ''''
                         then Inr (Some (parsedComment\<lparr>imageUrl := DEFAULT_IMAGE_URL,
                                                        isDefaultImage := True\<rparr>), w')
                         else Inr (Some parsedComment, w')))"

fun parseComments_loop ::
  "re_search \<Rightarrow> 'w get_votes \<Rightarrow> 'w \<Rightarrow> parsedComment list \<Rightarrow> comment list
     \<Rightarrow> py_error + (parsedComment list \<times> 'w)" where
  "parseComments_loop search get_votes w parsedComments [] = Inr (parsedComments, w)"
| "parseComments_loop search get_votes w parsedComments (comment # rest) =
     (case parseComments_body search get_votes w comment of
        Inl e \<Rightarrow> Inl e
      | Inr (None, w') \<Rightarrow> parseComments_loop search get_votes w' parsedComments rest
      | Inr (Some parsedComment, w') \<Rightarrow>
          parseComments_loop search get_votes w' (parsedComments @ [parsedComment]) rest)"

definition parseComments ::
  "re_search \<Rightarrow> 'w get_votes \<Rightarrow> 'w \<Rightarrow> comment list \<Rightarrow> py_error + (parsedComment list \<times> 'w)" where
  "parseComments search get_votes w comments = parseComments_loop search get_votes w [] comments"

section \<open>Rendering and saving the document\<close>

text \<open>
  The files on disk are a map from names to contents: \<^verbatim>\<open>os.path.isfile\<close> holds of the
  names in its domain, and a file that is there can be read.
\<close>

type_synonym disk = "string \<rightharpoonup> string"

definition loadTemplateFile :: "disk \<Rightarrow> string \<Rightarrow> string option" where
  "loadTemplateFile disk filename =
     (case disk filename of None \<Rightarrow> None | Some content \<Rightarrow> Some content)"

text \<open>\<^verbatim>\<open>not v\<close> for a value that is \<^verbatim>\<open>None\<close> or a string.\<close>

definition py_not :: "string option \<Rightarrow> bool" where
  "py_not v = (case v of None \<Rightarrow> True | Some s \<Rightarrow> s = [])"

text \<open>A renderer returns \<^verbatim>\<open>False\<close> or the text.\<close>

datatype rendered = PyFalse | PyStr string

text \<open>
  \<^verbatim>\<open>template.format(name=value, ...)\<close> belongs to Python's library and is a parameter of the
  model; it raises on a template with an unknown field or an unmatched brace.
\<close>

type_synonym str_format = "string \<Rightarrow> (string \<times> string) list \<Rightarrow> py_error + string"

fun markdown_images ::
  "str_format \<Rightarrow> string \<Rightarrow> string \<Rightarrow> parsedComment list \<Rightarrow> py_error + string" where
  "markdown_images format imageTemplate images [] = Inr images"
| "markdown_images format imageTemplate images (parsedComment # rest) =
     (case format imageTemplate
             [(''postUrl'', postUrl parsedComment), (''imageUrl'', imageUrl parsedComment),
              (''author'', author parsedComment)] of
        Inl e \<Rightarrow> Inl e
      | Inr img \<Rightarrow> markdown_images format imageTemplate (images @ img) rest)"

definition createMarkdownFromParsedComments ::
  "str_format \<Rightarrow> disk \<Rightarrow> parsedComment list \<Rightarrow> py_error + rendered" where
  "createMarkdownFromParsedComments format disk parsedComments =
     (let bodyTemplate = loadTemplateFile disk ''template_md_body.tpl'';
          imageTemplate = loadTemplateFile disk ''template_md_image.tpl''
      in if py_not bodyTemplate \<or> py_not imageTemplate then Inr PyFalse
         else
           case (bodyTemplate, imageTemplate) of
             (Some body, Some img) \<Rightarrow>
               (case markdown_images format img '''' parsedComments of
                  Inl e \<Rightarrow> Inl e
                | Inr images \<Rightarrow>
                    (case format body [(''images'', images)] of
                       Inl e \<Rightarrow> Inl e
                     | Inr text \<Rightarrow> Inr (PyStr text)))
           | _ \<Rightarrow> Inr PyFalse)"

fun html_images :: "string \<Rightarrow> string \<Rightarrow> parsedComment list \<Rightarrow> string" where
  "html_images imageTemplate images [] = images"
| "html_images imageTemplate images (parsedComment # rest) =
     (if imageUrl parsedComment = '''' \<and> postUrl parsedComment = ''''
      then html_images imageTemplate images rest
      else
        let img = replace imageTemplate ''{postUrl}'' (postUrl parsedComment);
            img = replace img ''{imageUrl}'' (imageUrl parsedComment);
            img = replace img ''{author}'' (author parsedComment)
        in html_images imageTemplate (images @ img) rest)"

definition createHtmlMarkupFromParsedComments :: "disk \<Rightarrow> parsedComment list \<Rightarrow> rendered" where
  "createHtmlMarkupFromParsedComments disk parsedComments =
     (let bodyTemplate = loadTemplateFile disk ''template_html_body.tpl'';
          imageTemplate = loadTemplateFile disk ''template_html_image.tpl''
      in if py_not bodyTemplate \<or> py_not imageTemplate then PyFalse
         else
           case (bodyTemplate, imageTemplate) of
             (Some body, Some img) \<Rightarrow>
               PyStr (replace body ''{images}'' (html_images img '''' parsedComments))
           | _ \<Rightarrow> PyFalse)"

text \<open>
  \<^verbatim>\<open>_saveMarkdownToDisk\<close>: \<open>stamp\<close> is what \<^verbatim>\<open>nowDate.strftime("%m-%d-%Y-%H-%M")\<close> returns.
  The file object that \<^verbatim>\<open>open\<close> returns is never false, so the function returns
  \<^verbatim>\<open>True\<close>.
\<close>

definition savedFileName :: "string \<Rightarrow> bool \<Rightarrow> string option \<Rightarrow> string" where
  "savedFileName stamp saveAsHTMLFile specificName =
     (let extension = (if saveAsHTMLFile then ''.html'' else ''md'')
      in case specificName of
           Some name \<Rightarrow> name
         | None \<Rightarrow> stamp @ ''-GeneratedImageSheet'' @ extension)"

definition saveMarkdownToDisk ::
  "disk \<Rightarrow> string \<Rightarrow> string \<Rightarrow> bool \<Rightarrow> string option \<Rightarrow> bool \<times> disk" where
  "saveMarkdownToDisk disk stamp markdown saveAsHTMLFile specificName =
     (True, disk(savedFileName stamp saveAsHTMLFile specificName \<mapsto> markdown))"

section \<open>Concrete inputs\<close>

text \<open>
  Four comments: one by a blocklisted author, one with a post link and no image, one
  with no link at all, and one with an image and a post link. \<open>table_search\<close> tabulates
  what \<^verbatim>\<open>re.search\<close> returns for the two patterns of the program on these bodies, and
  that it rejects the pattern \<^verbatim>\<open>(\<close>, whose parenthesis is never closed. \<open>table_votes\<close>
  is an endorsement service that knows two posts and counts the lookups made.
\<close>

definition spam_comment :: comment where
  "spam_comment = \<lparr>comment_author = ''abdt'',
                    comment_body = ''https://peakd.com/hive-174695/@abdt/spam''\<rparr>"

definition alice_comment :: comment where
  "alice_comment = \<lparr>comment_author = ''alice'',
                     comment_body = ''https://hive.blog/hive-174695/@alice/entry''\<rparr>"

definition chat_comment :: comment where
  "chat_comment = \<lparr>comment_author = ''carol'', comment_body = ''nice round!''\<rparr>"

definition bob_comment :: comment where
  "bob_comment = \<lparr>comment_author = ''bob'',
       comment_body = ''https://files.peakd.com/bob.png https://peakd.com/hive-174695/@bob/collage''\<rparr>"

definition table_search :: re_search where
  "table_search regex text =
     (if regex = ''('' then Inl ReError
      else if regex = REGEX_POST_URL then
        (if text = comment_body spam_comment
         then Inr (Some (Match ''https://peakd.com/hive-174695/@abdt/spam''
                          [Some ''https://peakd.com/hive-174695/@abdt/spam'']))
         else if text = comment_body alice_comment
         then Inr (Some (Match ''https://hive.blog/hive-174695/@alice/entry''
                          [Some ''https://hive.blog/hive-174695/@alice/entry'']))
         else if text = comment_body bob_comment
         then Inr (Some (Match ''https://peakd.com/hive-174695/@bob/collage''
                          [Some ''https://peakd.com/hive-174695/@bob/collage'']))
         else Inr None)
      else if regex = REGEX_IMAGE_URL then
        (if text = comment_body bob_comment
         then Inr (Some (Match ''https://files.peakd.com/bob.png''
                          [Some ''https://files.peakd.com/bob.png'']))
         else Inr None)
      else Inr None)"

definition table_votes :: "nat get_votes" where
  "table_votes n permlink =
     (if permlink = ''@alice/entry'' then (Inr ''[{voter: lmac, percent: 100}]'', Suc n)
      else if permlink = ''@bob/collage'' then (Inr ''[{voter: bob}, {voter: lmac}]'', Suc n)
      else (Inl RemoteError, Suc n))"

definition alice_entry :: parsedComment where
  "alice_entry = \<lparr>postUrl = ''https://peakd.com/hive-174695/@alice/entry'',
                   imageUrl = DEFAULT_IMAGE_URL, author = ''alice'', isDefaultImage = True\<rparr>"

definition bob_entry :: parsedComment where
  "bob_entry = \<lparr>postUrl = ''https://peakd.com/hive-174695/@bob/collage'',
                 imageUrl = ''https://files.peakd.com/bob.png'', author = ''bob'',
                 isDefaultImage = False\<rparr>"

definition demo_comments :: "comment list" where
  "demo_comments = [spam_comment, alice_comment, chat_comment, bob_comment]"

text \<open>\<^verbatim>\<open>str.format\<close> on a template without fields returns the template.\<close>

definition literal_format :: str_format where
  "literal_format template arguments = Inr template"

text \<open>Two disks: one without the per-entry templates, one whose body templates are empty.\<close>

definition body_only_disk :: disk where
  "body_only_disk =
     [''template_md_body.tpl'' \<mapsto> ''{images}'', ''template_html_body.tpl'' \<mapsto> ''{images}'']"

definition empty_body_disk :: disk where
  "empty_body_disk =
     [''template_md_body.tpl'' \<mapsto> '''', ''template_md_image.tpl'' \<mapsto> ''{author}'',
      ''template_html_body.tpl'' \<mapsto> '''', ''template_html_image.tpl'' \<mapsto> ''{author}'']"

section \<open>Properties of the layout\<close>

text \<open>
  C1. The specification asks for the sum of the per-row maximum heights plus the margins,
  and gives 10 + (50+10) + (80+10) + (30+10) + 10 = 210 for the heights
  [50, 40, 80, 60, 30] in two columns. On that input the function returns 220: the partial
  last row is charged the margin twice. (The tallest-in-row tracker is moreover updated
  only in the branch that does not end a row, so the thumbnail that completes a row is
  never measured; on this input the rows' tallest thumbnails happen to come first.)
\<close>

theorem pass1_height_example:
  "calculateImageHeightByParsedComments (map thumb [50, 40, 80, 60, 30]) 2 = 220
   \<and> calculateImageHeightByParsedComments (map thumb [50, 40, 80, 60, 30]) 2
       \<noteq> 10 + (50 + 10) + (80 + 10) + (30 + 10) + 10"
  by (simp add: calculateImageHeightByParsedComments_def pass1_init_def pass1_step_def
      pass1_wraps_def thumb_def THUMBNAIL_MARGIN_IN_IMAGE_def MAX_THUMBNAIL_WIDTH_IN_IMAGE_def)

text \<open>
  The thumbnail that completes a row is not measured: a row of heights 10 and 100 is
  given the height of its first thumbnail only.
\<close>

lemma pass1_height_skips_row_end:
  "calculateImageHeightByParsedComments (map thumb [10, 100]) 2 = 40"
  by (simp add: calculateImageHeightByParsedComments_def pass1_init_def pass1_step_def
      pass1_wraps_def thumb_def THUMBNAIL_MARGIN_IN_IMAGE_def MAX_THUMBNAIL_WIDTH_IN_IMAGE_def)

subsection \<open>Closed form of the rows\<close>

lemma rows_of_wraps_length: "length (rows_of_wraps r ws) = length ws"
  by (induction ws arbitrary: r) auto

lemma pass1_rows_from:
  assumes "0 \<le> col1 s" "col1 s < int c" "int c = max columns 1"
  shows "rows_of_wraps r (pass1_wrap_flags columns s xs)
         = map (\<lambda>i. r + (nat (col1 s) + i) div c) [0..<length xs]"
  using assms
proof (induction xs arbitrary: s r)
  case Nil
  then show ?case by simp
next
  case (Cons x xs)
  let ?s' = "pass1_step columns s x"
  have cpos: "0 < c" using Cons.prems by linarith
  have k0: "nat (col1 s) div c = 0"
    using Cons.prems by (auto simp: div_eq_0_iff)
  show ?case
  proof (cases "pass1_wraps columns s")
    case True
    then have eq: "int c = col1 s + 1"
      using Cons.prems by (auto simp: pass1_wraps_def max_def split: if_splits)
    have s': "col1 ?s' = 0"
      using True by (simp add: pass1_step_def)
    have IH: "rows_of_wraps (Suc r) (pass1_wrap_flags columns ?s' xs)
          = map (\<lambda>i. Suc r + (nat (col1 ?s') + i) div c) [0..<length xs]"
      using Cons.IH[of ?s' "Suc r"] s' cpos Cons.prems by simp
    have step: "Suc r + (nat (col1 ?s') + i) div c = r + (nat (col1 s) + Suc i) div c" for i
    proof -
      have "nat (col1 s) + Suc i = i + c" using eq Cons.prems by linarith
      then have "(nat (col1 s) + Suc i) div c = i div c + 1"
        using cpos by (metis div_add_self2 less_numeral_extra(3))
      then show ?thesis by (simp add: s')
    qed
    show ?thesis
      using True step by (simp add: map_upt_Suc k0 IH del: upt_Suc)
  next
    case False
    then have lt: "col1 s + 1 < int c"
      using Cons.prems by (auto simp: pass1_wraps_def max_def split: if_splits)
    have s': "col1 ?s' = col1 s + 1"
      using False by (simp add: pass1_step_def Let_def)
    have IH: "rows_of_wraps r (pass1_wrap_flags columns ?s' xs)
          = map (\<lambda>i. r + (nat (col1 ?s') + i) div c) [0..<length xs]"
      using Cons.IH[of ?s' r] s' lt Cons.prems by simp
    have step: "nat (col1 ?s') + i = nat (col1 s) + Suc i" for i
      using Cons.prems s' by linarith
    show ?thesis
      using False step by (simp add: map_upt_Suc k0 IH del: upt_Suc)
  qed
qed

lemma pass1_rows_closed:
  "pass1_rows columns xs = map (\<lambda>i. i div nat (max columns 1)) [0..<length xs]"
  unfolding pass1_rows_def
  using pass1_rows_from[of pass1_init "nat (max columns 1)" columns 0 xs]
  by (simp add: pass1_init_def max_def)


lemma pass2_rows_from:
  assumes "0 \<le> col2 s" "col2 s < 20"
  shows "rows_of_wraps r (pass2_wrap_flags s xs)
         = map (\<lambda>i. r + (nat (col2 s) + i) div 20) [0..<length xs]"
  using assms
proof (induction xs arbitrary: s r)
  case Nil
  then show ?case by simp
next
  case (Cons x xs)
  let ?s' = "pass2_step s x"
  have k0: "nat (col2 s) div 20 = 0"
    using Cons.prems by (auto simp: div_eq_0_iff)
  show ?case
  proof (cases "pass2_wraps s")
    case True
    then have eq: "col2 s = 19"
      using Cons.prems by (auto simp: pass2_wraps_def MAX_THUMBNAILS_PER_ROW_IN_IMAGE_def)
    have s': "col2 ?s' = 0"
      using True by (simp add: pass2_step_def Let_def)
    have IH: "rows_of_wraps (Suc r) (pass2_wrap_flags ?s' xs)
          = map (\<lambda>i. Suc r + (nat (col2 ?s') + i) div 20) [0..<length xs]"
      using Cons.IH[of ?s' "Suc r"] s' by simp
    have step: "Suc r + (nat (col2 ?s') + i) div 20 = r + (nat (col2 s) + Suc i) div 20" for i
    proof -
      have "nat (col2 s) + Suc i = i + 20" using eq by simp
      then have "(nat (col2 s) + Suc i) div 20 = i div 20 + 1"
        by (metis div_add_self2 zero_neq_numeral)
      then show ?thesis by (simp add: s')
    qed
    show ?thesis
      using True step by (simp add: map_upt_Suc k0 IH del: upt_Suc)
  next
    case False
    then have lt: "col2 s + 1 < 20"
      using Cons.prems by (auto simp: pass2_wraps_def MAX_THUMBNAILS_PER_ROW_IN_IMAGE_def)
    have s': "col2 ?s' = col2 s + 1"
      using False by (simp add: pass2_step_def Let_def)
    have IH: "rows_of_wraps r (pass2_wrap_flags ?s' xs)
          = map (\<lambda>i. r + (nat (col2 ?s') + i) div 20) [0..<length xs]"
      using Cons.IH[of ?s' r] s' lt Cons.prems by simp
    have step: "nat (col2 ?s') + i = nat (col2 s) + Suc i" for i
      using Cons.prems s' by linarith
    show ?thesis
      using False step by (simp add: map_upt_Suc k0 IH del: upt_Suc)
  qed
qed

lemma pass2_rows_closed:
  "pass2_rows xs = map (\<lambda>i. i div 20) [0..<length xs]"
  unfolding pass2_rows_def
  using pass2_rows_from[of pass2_init 0 xs]
  by (simp add: pass2_init_def)

lemma row_numbers_differ:
  assumes "0 < c" "c \<noteq> (20::nat)"
  shows "(map (\<lambda>i. i div c) [0..<n] \<noteq> map (\<lambda>i. i div 20) [0..<n]) \<longleftrightarrow> min c 20 < n"
proof
  assume neq: "map (\<lambda>i. i div c) [0..<n] \<noteq> map (\<lambda>i. i div 20) [0..<n]"
  show "min c 20 < n"
  proof (rule ccontr)
    assume "\<not> min c 20 < n"
    then have "i div c = i div 20" if "i < n" for i
      using that by simp
    then have "map (\<lambda>i. i div c) [0..<n] = map (\<lambda>i. i div 20) [0..<n]"
      by simp
    with neq show False by contradiction
  qed
next
  assume lt: "min c 20 < n"
  let ?m = "min c 20"
  have "?m div c \<noteq> ?m div 20"
  proof (cases "c < 20")
    case True
    then show ?thesis using assms by (simp add: min_def)
  next
    case False
    then have "20 < c" using assms by simp
    then show ?thesis by (simp add: min_def)
  qed
  moreover have "?m \<in> set [0..<n]" using lt by simp
  ultimately show "map (\<lambda>i. i div c) [0..<n] \<noteq> map (\<lambda>i. i div 20) [0..<n]"
    by (metis (mono_tags, lifting) map_eq_conv)
qed

text \<open>
  C2 as stated fails on short sequences: with five columns, three thumbnails are one
  row in both passes.
\<close>

theorem rows_coincide_on_short_sequence:
  "(5::int) \<noteq> MAX_THUMBNAILS_PER_ROW_IN_IMAGE
   \<and> pass1_rows 5 (map thumb [50, 40, 80]) = pass2_rows (map thumb [50, 40, 80])"
  by (simp add: MAX_THUMBNAILS_PER_ROW_IN_IMAGE_def pass1_rows_def pass2_rows_def
      pass1_init_def pass2_init_def pass1_wraps_def pass2_wraps_def pass1_step_def
      pass2_step_def Let_def)

text \<open>
  C2, amended. Pass 1 starts a new row after every \<open>max columns 1\<close> thumbnails; pass 2
  starts one after every 20 thumbnails, whatever \<open>columns\<close> is. For a \<open>columns\<close> other than
  20 the two passes assign the thumbnails to rows differently exactly when the sequence
  is longer than the shorter of the two row lengths.
\<close>

theorem rows_of_the_two_passes:
  "pass1_rows columns xs = map (\<lambda>i. i div nat (max columns 1)) [0..<length xs]
   \<and> pass2_rows xs = map (\<lambda>i. i div 20) [0..<length xs]
   \<and> (columns \<noteq> MAX_THUMBNAILS_PER_ROW_IN_IMAGE \<longrightarrow>
        (pass1_rows columns xs \<noteq> pass2_rows xs
           \<longleftrightarrow> min (nat (max columns 1)) 20 < length xs))"
proof -
  have "0 < nat (max columns 1)" by simp
  moreover have "nat (max columns 1) \<noteq> 20" if "columns \<noteq> MAX_THUMBNAILS_PER_ROW_IN_IMAGE"
    using that by (auto simp: MAX_THUMBNAILS_PER_ROW_IN_IMAGE_def max_def split: if_splits)
  ultimately show ?thesis
    using row_numbers_differ[of "nat (max columns 1)" "length xs"]
    by (simp only: pass1_rows_closed pass2_rows_closed) blast
qed

theorem rows_of_the_two_passes_witness:
  "(6::int) \<noteq> MAX_THUMBNAILS_PER_ROW_IN_IMAGE
   \<and> pass1_rows 6 (map thumb [1, 2, 3, 4, 5, 6, 7]) \<noteq> pass2_rows (map thumb [1, 2, 3, 4, 5, 6, 7])
   \<and> pass1_rows 6 (map thumb [1, 2, 3, 4, 5, 6, 7]) = [0, 0, 0, 0, 0, 0, 1]
   \<and> pass2_rows (map thumb [1, 2, 3, 4, 5, 6, 7]) = [0, 0, 0, 0, 0, 0, 0]"
  using rows_of_the_two_passes[of 6 "map thumb [1, 2, 3, 4, 5, 6, 7]"]
  by (simp add: MAX_THUMBNAILS_PER_ROW_IN_IMAGE_def upt_conv_Cons)

section \<open>Properties of the extraction and the filter\<close>

subsection \<open>The loop body and the loop\<close>

lemma replace_nonempty:
  assumes "s \<noteq> []" "new \<noteq> []"
  shows "replace s old new \<noteq> []"
proof (cases s)
  case Nil
  with assms show ?thesis by simp
next
  case (Cons c cs)
  then show ?thesis using assms by (simp add: replace_def)
qed

lemma normalizePostUrl_nonempty: "url \<noteq> [] \<Longrightarrow> normalizePostUrl url \<noteq> []"
  by (simp add: normalizePostUrl_def replace_nonempty)

lemma parseCommentBody_author:
  "parseCommentBody search c = Inr b \<Longrightarrow> author b = comment_author c"
  by (auto simp: parseCommentBody_def split: sum.splits)

lemma DEFAULT_IMAGE_URL_nonempty: "DEFAULT_IMAGE_URL \<noteq> []"
  by (simp add: DEFAULT_IMAGE_URL_def)

lemma parseComments_body_Some:
  assumes "parseComments_body search get_votes w c = Inr (Some e, w')"
  shows "comment_author c \<notin> set AUTHOR_BLACKLIST"
    and "author e = comment_author c"
    and "postUrl e \<noteq> []"
    and "imageUrl e \<noteq> []"
    and "isDefaultImage e \<Longrightarrow> imageUrl e = DEFAULT_IMAGE_URL"
  using assms
  by (auto simp: parseComments_body_def Let_def normalizePostUrl_nonempty
        DEFAULT_IMAGE_URL_nonempty parseCommentBody_author
      split: if_splits sum.splits prod.splits)

lemma parseComments_loop_acc:
  assumes "parseComments_loop search get_votes w acc cs = Inr (out, w')"
  shows "\<exists>kept new. out = acc @ new \<and> subseq kept cs
           \<and> list_all2 (\<lambda>c e. \<exists>w0 w1. parseComments_body search get_votes w0 c = Inr (Some e, w1))
                kept new"
  using assms
proof (induction cs arbitrary: w acc)
  case Nil
  then show ?case by auto
next
  case (Cons c cs)
  show ?case
  proof (cases "parseComments_body search get_votes w c")
    case (Inl err)
    with Cons.prems show ?thesis by simp
  next
    case (Inr r)
    obtain p w1 where r: "r = (p, w1)" by (cases r)
    show ?thesis
    proof (cases p)
      case None
      with Inr r Cons.prems
      have "parseComments_loop search get_votes w1 acc cs = Inr (out, w')" by simp
      from Cons.IH[OF this] obtain kept new where
        "out = acc @ new" "subseq kept cs"
        "list_all2 (\<lambda>c e. \<exists>w0 w1. parseComments_body search get_votes w0 c = Inr (Some e, w1)) kept new"
        by blast
      then show ?thesis by (blast intro: list_emb_Cons)
    next
      case (Some e)
      with Inr r Cons.prems
      have "parseComments_loop search get_votes w1 (acc @ [e]) cs = Inr (out, w')" by simp
      from Cons.IH[OF this] obtain kept new where k:
        "out = (acc @ [e]) @ new" "subseq kept cs"
        "list_all2 (\<lambda>c e. \<exists>w0 w1. parseComments_body search get_votes w0 c = Inr (Some e, w1)) kept new"
        by blast
      have "parseComments_body search get_votes w c = Inr (Some e, w1)"
        using Inr r Some by simp
      then have "list_all2 (\<lambda>c e. \<exists>w0 w1. parseComments_body search get_votes w0 c = Inr (Some e, w1))
                   (c # kept) (e # new)"
        using k(3) by auto
      moreover have "subseq (c # kept) (c # cs)" using k(2) by simp
      moreover have "out = acc @ (e # new)" using k(1) by simp
      ultimately show ?thesis by blast
    qed
  qed
qed

lemma parseComments_kept:
  assumes "parseComments search get_votes w comments = Inr (out, w')"
  shows "\<exists>kept. subseq kept comments
           \<and> list_all2 (\<lambda>c e. \<exists>w0 w1. parseComments_body search get_votes w0 c = Inr (Some e, w1))
                kept out"
  using parseComments_loop_acc[of search get_votes w "[]" comments out w'] assms
  by (auto simp: parseComments_def)

lemma parseComments_entry:
  assumes "parseComments search get_votes w comments = Inr (out, w')" "e \<in> set out"
  shows "\<exists>c \<in> set comments. \<exists>w0 w1. parseComments_body search get_votes w0 c = Inr (Some e, w1)"
proof -
  from parseComments_kept[OF assms(1)] obtain kept where
    k: "subseq kept comments"
       "list_all2 (\<lambda>c e. \<exists>w0 w1. parseComments_body search get_votes w0 c = Inr (Some e, w1)) kept out"
    by blast
  from assms(2) obtain i where i: "i < length out" "out ! i = e"
    by (auto simp: in_set_conv_nth)
  with k(2) have "\<exists>w0 w1. parseComments_body search get_votes w0 (kept ! i) = Inr (Some e, w1)"
    by (auto simp: list_all2_conv_all_nth)
  moreover have "kept ! i \<in> set kept"
    using k(2) i(1) by (simp add: list_all2_lengthD)
  then have "kept ! i \<in> set comments"
    using k(1) by (auto elim: list_emb_set)
  ultimately show ?thesis by blast
qed

lemma parseComments_body_extracted:
  assumes "parseComments_body search get_votes w c = Inr (Some e, w')"
  shows "\<exists>b. parseCommentBody search c = Inr b
           \<and> imageUrl e = (if imageUrl b = '''' then DEFAULT_IMAGE_URL else imageUrl b)"
proof (cases "parseCommentBody search c")
  case (Inl err)
  with assms show ?thesis
    by (simp add: parseComments_body_def split: if_splits)
next
  case (Inr b)
  obtain votes w1 where gv:
    "get_votes w (hivePermlink_of (normalizePostUrl (postUrl b))) = (votes, w1)"
    by (cases "get_votes w (hivePermlink_of (normalizePostUrl (postUrl b)))")
  have "imageUrl e = (if imageUrl b = '''' then DEFAULT_IMAGE_URL else imageUrl b)"
    using assms Inr gv
    by (cases votes) (auto simp: parseComments_body_def Let_def split: if_splits)
  with Inr show ?thesis by blast
qed

text \<open>
  What the loop body appends is determined by the extraction from the comment, and the loop
  over a list that is cut in two is the loop over the first part followed by the loop over
  the second.
\<close>

lemma parseComments_body_entry:
  assumes "parseComments_body search get_votes w c = Inr (Some e, w')"
  shows "\<exists>b. parseCommentBody search c = Inr b
           \<and> e = \<lparr>postUrl = normalizePostUrl (postUrl b),
                   imageUrl = (if imageUrl b = '''' then DEFAULT_IMAGE_URL else imageUrl b),
                   author = comment_author c,
                   isDefaultImage = (imageUrl b = '''')\<rparr>"
proof (cases "parseCommentBody search c")
  case (Inl err)
  with assms show ?thesis
    by (simp add: parseComments_body_def split: if_splits)
next
  case (Inr b)
  obtain votes w1 where gv:
    "get_votes w (hivePermlink_of (normalizePostUrl (postUrl b))) = (votes, w1)"
    by (cases "get_votes w (hivePermlink_of (normalizePostUrl (postUrl b)))")
  have "e = \<lparr>postUrl = normalizePostUrl (postUrl b),
             imageUrl = (if imageUrl b = '''' then DEFAULT_IMAGE_URL else imageUrl b),
             author = comment_author c,
             isDefaultImage = (imageUrl b = '''')\<rparr>"
    using assms Inr gv parseCommentBody_author[OF Inr]
    by (cases votes) (auto simp: parseComments_body_def Let_def split: if_splits)
  with Inr show ?thesis by blast
qed

lemma parseComments_loop_append:
  "parseComments_loop search get_votes w acc (xs @ ys) =
     (case parseComments_loop search get_votes w acc xs of
        Inl err \<Rightarrow> Inl err
      | Inr (acc', w1) \<Rightarrow> parseComments_loop search get_votes w1 acc' ys)"
proof (induction xs arbitrary: w acc)
  case Nil
  show ?case by simp
next
  case (Cons x xs)
  show ?case
  proof (cases "parseComments_body search get_votes w x")
    case (Inl err)
    then show ?thesis by simp
  next
    case (Inr r)
    obtain p w1 where r: "r = (p, w1)" by (cases r)
    show ?thesis
      using Inr r Cons.IH by (cases p) simp_all
  qed
qed

lemma parseComments_body_fallback:
  assumes "comment_author c \<notin> set AUTHOR_BLACKLIST"
      and "parseCommentBody search c = Inr b"
      and "postUrl b \<noteq> ''''"
      and "imageUrl b = ''''"
      and "get_votes w (hivePermlink_of (normalizePostUrl (postUrl b))) = (Inr v, w')"
      and "contains ''lmac'' v"
  shows "parseComments_body search get_votes w c
         = Inr (Some \<lparr>postUrl = normalizePostUrl (postUrl b), imageUrl = DEFAULT_IMAGE_URL,
                      author = comment_author c, isDefaultImage = True\<rparr>, w')"
  using assms by (simp add: parseComments_body_def Let_def parseCommentBody_author)

lemma parseComments_appended_at:
  assumes run: "parseComments search get_votes w (pre @ c # rest) = Inr (out, w')"
      and pre: "parseComments search get_votes w pre = Inr (acc, w0)"
      and body: "parseComments_body search get_votes w0 c = Inr (Some e, w1)"
  shows "\<exists>tail. out = acc @ e # tail"
proof -
  from run pre body
  have "parseComments_loop search get_votes w1 (acc @ [e]) rest = Inr (out, w')"
    by (simp add: parseComments_def parseComments_loop_append)
  from parseComments_loop_acc[OF this] show ?thesis by auto
qed

text \<open>
  \<^verbatim>\<open>_parseComments\<close> returns whenever the regular expression library accepts the two
  patterns of the program: no other exception leaves the loop.
\<close>

lemma findByRegex_returns:
  assumes "search regex text = Inr r"
  shows "\<exists>s. findByRegex search text regex = Inr s"
proof (cases r)
  case None
  with assms show ?thesis by (simp add: findByRegex_def)
next
  case (Some m)
  obtain whole groups where "m = Match whole groups" by (cases m)
  with assms Some show ?thesis
    by (cases groups) (auto simp: findByRegex_def split: option.splits)
qed

lemma parseCommentBody_returns:
  assumes "\<And>text. \<exists>r. search REGEX_POST_URL text = Inr r"
      and "\<And>text. \<exists>r. search REGEX_IMAGE_URL text = Inr r"
  shows "\<exists>b. parseCommentBody search c = Inr b"
proof -
  from assms(1) obtain r1 where "search REGEX_POST_URL (comment_body c) = Inr r1" by blast
  from findByRegex_returns[where search = search, OF this] obtain p where
    p: "findByRegex search (comment_body c) REGEX_POST_URL = Inr p" by blast
  from assms(2) obtain r2 where "search REGEX_IMAGE_URL (comment_body c) = Inr r2" by blast
  from findByRegex_returns[where search = search, OF this] obtain i where
    i: "findByRegex search (comment_body c) REGEX_IMAGE_URL = Inr i" by blast
  show ?thesis by (simp add: parseCommentBody_def p i)
qed

lemma parseComments_body_returns:
  assumes "parseCommentBody search c = Inr b"
  shows "\<exists>r w'. parseComments_body search get_votes w c = Inr (r, w')"
proof -
  obtain votes w1 where gv:
    "get_votes w (hivePermlink_of (normalizePostUrl (postUrl b))) = (votes, w1)"
    by (cases "get_votes w (hivePermlink_of (normalizePostUrl (postUrl b)))")
  show ?thesis
    using assms gv by (cases votes) (simp_all add: parseComments_body_def Let_def)
qed

lemma parseComments_loop_returns:
  assumes "\<And>text. \<exists>r. search REGEX_POST_URL text = Inr r"
      and "\<And>text. \<exists>r. search REGEX_IMAGE_URL text = Inr r"
  shows "\<exists>out w'. parseComments_loop search get_votes w acc cs = Inr (out, w')"
proof (induction cs arbitrary: w acc)
  case Nil
  show ?case by simp
next
  case (Cons c cs)
  have "\<exists>b. parseCommentBody search c = Inr b"
    using assms by (rule parseCommentBody_returns)
  then obtain b where "parseCommentBody search c = Inr b" by blast
  from parseComments_body_returns[where get_votes = get_votes and w = w, OF this]
  obtain r w1 where
    r: "parseComments_body search get_votes w c = Inr (r, w1)" by blast
  show ?case
  proof (cases r)
    case None
    with r Cons.IH[of w1 acc] show ?thesis by simp
  next
    case (Some e)
    with r Cons.IH[of w1 "acc @ [e]"] show ?thesis by simp
  qed
qed

lemma parseComments_returns:
  assumes "\<And>text. \<exists>r. search REGEX_POST_URL text = Inr r"
      and "\<And>text. \<exists>r. search REGEX_IMAGE_URL text = Inr r"
  shows "\<exists>out w'. parseComments search get_votes w comments = Inr (out, w')"
  unfolding parseComments_def using assms by (rule parseComments_loop_returns)

subsection \<open>The concrete run\<close>

lemma regex_neq: "REGEX_POST_URL \<noteq> ''(''" "REGEX_IMAGE_URL \<noteq> ''(''" "REGEX_IMAGE_URL \<noteq> REGEX_POST_URL"
  by (simp_all add: REGEX_POST_URL_def REGEX_IMAGE_URL_def)

lemma body_spam: "parseComments_body table_search table_votes n spam_comment = Inr (None, n)"
  by (simp add: parseComments_body_def spam_comment_def AUTHOR_BLACKLIST_def)

lemma pcb_alice: "parseCommentBody table_search alice_comment
   = Inr \<lparr>postUrl = ''https://hive.blog/hive-174695/@alice/entry'', imageUrl = '''', author = ''alice''\<rparr>"
  by (simp add: parseCommentBody_def findByRegex_def table_search_def regex_neq alice_comment_def
      spam_comment_def bob_comment_def replace_def)

lemma norm_alice: "normalizePostUrl ''https://hive.blog/hive-174695/@alice/entry'' = ''https://peakd.com/hive-174695/@alice/entry''"
  by (simp add: normalizePostUrl_def replace_def)

lemma perm_alice: "hivePermlink_of ''https://peakd.com/hive-174695/@alice/entry'' = ''@alice/entry''"
  by (simp add: hivePermlink_of_def replace_def)

lemma alice_not_listed: "''alice'' \<notin> set AUTHOR_BLACKLIST" "''bob'' \<notin> set AUTHOR_BLACKLIST" "''carol'' \<notin> set AUTHOR_BLACKLIST"
  by (simp_all add: AUTHOR_BLACKLIST_def)

lemma body_alice: "parseComments_body table_search table_votes n alice_comment = Inr (Some alice_entry, Suc n)"
  by (simp add: parseComments_body_def pcb_alice norm_alice perm_alice alice_not_listed table_votes_def
       alice_entry_def Let_def) (simp add: alice_comment_def alice_not_listed)

lemma pcb_chat: "parseCommentBody table_search chat_comment
   = Inr \<lparr>postUrl = '''', imageUrl = '''', author = ''carol''\<rparr>"
  by (simp add: parseCommentBody_def findByRegex_def table_search_def regex_neq alice_comment_def
      spam_comment_def bob_comment_def chat_comment_def replace_def)

lemma body_chat: "parseComments_body table_search table_votes n chat_comment = Inr (None, n)"
  by (simp add: parseComments_body_def pcb_chat Let_def)

lemma pcb_bob: "parseCommentBody table_search bob_comment
   = Inr \<lparr>postUrl = ''https://peakd.com/hive-174695/@bob/collage'',
          imageUrl = ''https://files.peakd.com/bob.png'', author = ''bob''\<rparr>"
  by (simp add: parseCommentBody_def findByRegex_def table_search_def regex_neq alice_comment_def
      spam_comment_def bob_comment_def replace_def)

lemma norm_bob: "normalizePostUrl ''https://peakd.com/hive-174695/@bob/collage''
   = ''https://peakd.com/hive-174695/@bob/collage''"
  by (simp add: normalizePostUrl_def replace_def)

lemma perm_bob: "hivePermlink_of ''https://peakd.com/hive-174695/@bob/collage'' = ''@bob/collage''"
  by (simp add: hivePermlink_of_def replace_def)

lemma body_bob:
  "parseComments_body table_search table_votes n bob_comment = Inr (Some bob_entry, Suc n)"
  by (simp add: parseComments_body_def pcb_bob norm_bob perm_bob table_votes_def
       bob_entry_def Let_def) (simp add: bob_comment_def alice_not_listed)

lemma demo_run:
  "parseComments table_search table_votes 0 demo_comments = Inr ([alice_entry, bob_entry], 2)"
  by (simp add: parseComments_def demo_comments_def body_spam body_alice body_chat body_bob)

subsection \<open>The claims\<close>

text \<open>
  C3. Every entry that \<^verbatim>\<open>_parseComments\<close> returns has a non-empty post URL and a non-empty
  image URL, and the image URL is the one extracted from some comment of the input or,
  when that one was empty, the fallback.
\<close>

theorem parsed_entries_have_urls:
  assumes "parseComments search get_votes w comments = Inr (out, w')"
      and "e \<in> set out"
  shows "postUrl e \<noteq> '''' \<and> imageUrl e \<noteq> ''''
         \<and> (\<exists>c \<in> set comments. \<exists>b. parseCommentBody search c = Inr b
               \<and> imageUrl e = (if imageUrl b = '''' then DEFAULT_IMAGE_URL else imageUrl b))"
proof -
  from parseComments_entry[OF assms] obtain c w0 w1 where
    c: "c \<in> set comments" "parseComments_body search get_votes w0 c = Inr (Some e, w1)"
    by blast
  from parseComments_body_Some[OF c(2)] parseComments_body_extracted[OF c(2)] c(1)
  show ?thesis by blast
qed

theorem parsed_entries_have_urls_witness:
  "parseComments table_search table_votes 0 demo_comments = Inr ([alice_entry, bob_entry], 2)
   \<and> bob_entry \<in> set [alice_entry, bob_entry]
   \<and> postUrl bob_entry \<noteq> '''' \<and> imageUrl bob_entry \<noteq> ''''
   \<and> (\<exists>c \<in> set demo_comments. \<exists>b. parseCommentBody table_search c = Inr b
         \<and> imageUrl bob_entry = (if imageUrl b = '''' then DEFAULT_IMAGE_URL else imageUrl b))"
proof -
  have "bob_entry \<in> set [alice_entry, bob_entry]" by simp
  from parsed_entries_have_urls[OF demo_run this] demo_run show ?thesis by simp
qed

text \<open>
  C4. In the list that \<^verbatim>\<open>_parseComments\<close> returns, every entry comes from a comment of
  the input, and it has the fallback image URL and the default-image flag set exactly when
  the image extraction from that comment gave the empty string. And a comment that is not
  blocklisted, whose post URL was extracted, whose image extraction gave the empty string
  and whose endorsement lookup, made in the state \<open>w0\<close> in which the loop reaches it, shows
  the marker, has its entry in the returned list, right after the entries \<open>acc\<close> of the
  comments before it, with the fallback image URL and the flag set.
\<close>

theorem fallback_image_substituted:
  assumes "parseComments search get_votes w comments = Inr (out, w')"
  shows "(\<forall>e \<in> set out. \<exists>c \<in> set comments. \<exists>b.
            parseCommentBody search c = Inr b
            \<and> author e = comment_author c
            \<and> postUrl e = normalizePostUrl (postUrl b)
            \<and> isDefaultImage e = (imageUrl b = '''')
            \<and> imageUrl e = (if imageUrl b = '''' then DEFAULT_IMAGE_URL else imageUrl b))
         \<and> (comments = pre @ c # rest
              \<and> parseComments search get_votes w pre = Inr (acc, w0)
              \<and> comment_author c \<notin> set AUTHOR_BLACKLIST
              \<and> parseCommentBody search c = Inr b
              \<and> postUrl b \<noteq> '''' \<and> imageUrl b = ''''
              \<and> get_votes w0 (hivePermlink_of (normalizePostUrl (postUrl b))) = (Inr v, w1)
              \<and> contains ''lmac'' v
            \<longrightarrow> (\<exists>tail. out = acc @ \<lparr>postUrl = normalizePostUrl (postUrl b),
                                        imageUrl = DEFAULT_IMAGE_URL,
                                        author = comment_author c,
                                        isDefaultImage = True\<rparr> # tail))"
proof (intro conjI ballI impI)
  fix e assume "e \<in> set out"
  from parseComments_entry[OF assms this] obtain c0 w2 w3 where
    c0: "c0 \<in> set comments" "parseComments_body search get_votes w2 c0 = Inr (Some e, w3)"
    by blast
  from parseComments_body_entry[OF c0(2)] obtain b0 where
    b0: "parseCommentBody search c0 = Inr b0"
        "e = \<lparr>postUrl = normalizePostUrl (postUrl b0),
              imageUrl = (if imageUrl b0 = '''' then DEFAULT_IMAGE_URL else imageUrl b0),
              author = comment_author c0,
              isDefaultImage = (imageUrl b0 = '''')\<rparr>"
    by blast
  have "parseCommentBody search c0 = Inr b0
        \<and> author e = comment_author c0
        \<and> postUrl e = normalizePostUrl (postUrl b0)
        \<and> isDefaultImage e = (imageUrl b0 = '''')
        \<and> imageUrl e = (if imageUrl b0 = '''' then DEFAULT_IMAGE_URL else imageUrl b0)"
    using b0 by simp
  with c0(1) show "\<exists>c \<in> set comments. \<exists>b.
            parseCommentBody search c = Inr b
            \<and> author e = comment_author c
            \<and> postUrl e = normalizePostUrl (postUrl b)
            \<and> isDefaultImage e = (imageUrl b = '''')
            \<and> imageUrl e = (if imageUrl b = '''' then DEFAULT_IMAGE_URL else imageUrl b)"
    by blast
next
  assume h: "comments = pre @ c # rest
              \<and> parseComments search get_votes w pre = Inr (acc, w0)
              \<and> comment_author c \<notin> set AUTHOR_BLACKLIST
              \<and> parseCommentBody search c = Inr b
              \<and> postUrl b \<noteq> '''' \<and> imageUrl b = ''''
              \<and> get_votes w0 (hivePermlink_of (normalizePostUrl (postUrl b))) = (Inr v, w1)
              \<and> contains ''lmac'' v"
  then have f: "comment_author c \<notin> set AUTHOR_BLACKLIST"
      "parseCommentBody search c = Inr b" "postUrl b \<noteq> ''''" "imageUrl b = ''''"
      "get_votes w0 (hivePermlink_of (normalizePostUrl (postUrl b))) = (Inr v, w1)"
      "contains ''lmac'' v"
    by blast+
  have body: "parseComments_body search get_votes w0 c
         = Inr (Some \<lparr>postUrl = normalizePostUrl (postUrl b), imageUrl = DEFAULT_IMAGE_URL,
                      author = comment_author c, isDefaultImage = True\<rparr>, w1)"
    using f by (rule parseComments_body_fallback)
  from h assms have run: "parseComments search get_votes w (pre @ c # rest) = Inr (out, w')"
    by simp
  from h have pre: "parseComments search get_votes w pre = Inr (acc, w0)" by simp
  from parseComments_appended_at[OF run pre body]
  show "\<exists>tail. out = acc @ \<lparr>postUrl = normalizePostUrl (postUrl b),
                                        imageUrl = DEFAULT_IMAGE_URL,
                                        author = comment_author c,
                                        isDefaultImage = True\<rparr> # tail" .
qed

theorem fallback_image_substituted_witness:
  "parseComments table_search table_votes 0 demo_comments = Inr ([alice_entry, bob_entry], 2)
   \<and> demo_comments = [spam_comment] @ alice_comment # [chat_comment, bob_comment]
   \<and> parseComments table_search table_votes 0 [spam_comment] = Inr ([], 0)
   \<and> comment_author alice_comment \<notin> set AUTHOR_BLACKLIST
   \<and> parseCommentBody table_search alice_comment
       = Inr \<lparr>postUrl = ''https://hive.blog/hive-174695/@alice/entry'', imageUrl = '''',
              author = ''alice''\<rparr>
   \<and> table_votes 0 ''@alice/entry'' = (Inr ''[{voter: lmac, percent: 100}]'', 1)
   \<and> contains ''lmac'' ''[{voter: lmac, percent: 100}]''
   \<and> (\<exists>tail. [alice_entry, bob_entry]
          = [] @ \<lparr>postUrl = ''https://peakd.com/hive-174695/@alice/entry'',
                   imageUrl = DEFAULT_IMAGE_URL, author = ''alice'',
                   isDefaultImage = True\<rparr> # tail)
   \<and> imageUrl alice_entry = DEFAULT_IMAGE_URL \<and> isDefaultImage alice_entry
   \<and> imageUrl bob_entry = ''https://files.peakd.com/bob.png'' \<and> \<not> isDefaultImage bob_entry"
proof -
  have d: "demo_comments = [spam_comment] @ alice_comment # [chat_comment, bob_comment]"
    by (simp add: demo_comments_def)
  have p: "parseComments table_search table_votes 0 [spam_comment] = Inr ([], 0)"
    by (simp add: parseComments_def body_spam)
  have a: "comment_author alice_comment \<notin> set AUTHOR_BLACKLIST"
    by (simp add: alice_comment_def alice_not_listed)
  have v: "table_votes 0 ''@alice/entry'' = (Inr ''[{voter: lmac, percent: 100}]'', 1)"
    by (simp add: table_votes_def)
  have l: "contains ''lmac'' ''[{voter: lmac, percent: 100}]''" by simp
  from fallback_image_substituted[where search = table_search and get_votes = table_votes
      and w = 0 and comments = demo_comments and out = "[alice_entry, bob_entry]" and w' = 2
      and pre = "[spam_comment]" and c = alice_comment and rest = "[chat_comment, bob_comment]"
      and acc = "[]" and ?w0.0 = 0 and ?w1.0 = 1
      and b = "\<lparr>postUrl = ''https://hive.blog/hive-174695/@alice/entry'', imageUrl = '''',
                 author = ''alice''\<rparr>"
      and v = "''[{voter: lmac, percent: 100}]''", OF demo_run]
  have "\<exists>tail. [alice_entry, bob_entry]
          = [] @ \<lparr>postUrl = ''https://peakd.com/hive-174695/@alice/entry'',
                   imageUrl = DEFAULT_IMAGE_URL, author = ''alice'',
                   isDefaultImage = True\<rparr> # tail"
    using d p a pcb_alice v l by (simp add: norm_alice perm_alice alice_comment_def)
  with demo_run d p a pcb_alice v l show ?thesis
    by (simp add: alice_entry_def bob_entry_def)
qed

text \<open>
  C5. No entry of the result has an author of the blocklist, whatever the comments and
  their order.
\<close>

theorem blacklisted_authors_dropped:
  assumes "parseComments search get_votes w comments = Inr (out, w')"
  shows "\<forall>e \<in> set out. author e \<notin> set AUTHOR_BLACKLIST"
proof
  fix e assume "e \<in> set out"
  from parseComments_entry[OF assms this] obtain c w0 w1 where
    "parseComments_body search get_votes w0 c = Inr (Some e, w1)" by blast
  from parseComments_body_Some(1,2)[OF this]
  show "author e \<notin> set AUTHOR_BLACKLIST" by simp
qed

theorem blacklisted_authors_dropped_witness:
  "parseComments table_search table_votes 0 demo_comments = Inr ([alice_entry, bob_entry], 2)
   \<and> spam_comment \<in> set demo_comments
   \<and> comment_author spam_comment \<in> set AUTHOR_BLACKLIST
   \<and> author alice_entry \<notin> set AUTHOR_BLACKLIST
   \<and> author bob_entry \<notin> set AUTHOR_BLACKLIST"
  using blacklisted_authors_dropped[OF demo_run] demo_run
  by (simp add: demo_comments_def spam_comment_def AUTHOR_BLACKLIST_def)

text \<open>
  C6. The result is, entry for entry and in the same order, what the loop body makes of a
  subsequence of the comments; in particular the authors of the result are a subsequence
  of the authors of the comments.
\<close>

theorem parseComments_preserves_order:
  assumes "parseComments search get_votes w comments = Inr (out, w')"
  shows "\<exists>kept. subseq kept comments
           \<and> list_all2 (\<lambda>c e. \<exists>w0 w1. parseComments_body search get_votes w0 c
                                          = Inr (Some e, w1)) kept out
           \<and> map author out = map comment_author kept
           \<and> subseq (map author out) (map comment_author comments)"
proof -
  from parseComments_kept[OF assms] obtain kept where
    k: "subseq kept comments"
       "list_all2 (\<lambda>c e. \<exists>w0 w1. parseComments_body search get_votes w0 c
                                    = Inr (Some e, w1)) kept out"
    by blast
  have "list_all2 (\<lambda>c e. author e = comment_author c) kept out"
    using k(2) by (rule list_all2_mono) (auto dest: parseComments_body_Some(2))
  then have m: "map author out = map comment_author kept"
    by (induction rule: list_all2_induct) auto
  with k(1) have "subseq (map author out) (map comment_author comments)"
    by (simp add: subseq_map)
  with k m show ?thesis by blast
qed

theorem parseComments_preserves_order_witness:
  "parseComments table_search table_votes 0 demo_comments = Inr ([alice_entry, bob_entry], 2)
   \<and> (\<exists>kept. subseq kept demo_comments
          \<and> list_all2 (\<lambda>c e. \<exists>w0 w1. parseComments_body table_search table_votes w0 c
                                         = Inr (Some e, w1)) kept [alice_entry, bob_entry]
          \<and> map author [alice_entry, bob_entry] = map comment_author kept
          \<and> subseq (map author [alice_entry, bob_entry]) (map comment_author demo_comments))"
  using parseComments_preserves_order[OF demo_run] demo_run by simp

text \<open>
  C7. Whenever \<^verbatim>\<open>re.search\<close> returns, as it does on every text for a pattern that
  compiles and so for the two patterns of the program, \<^verbatim>\<open>_findByRegex\<close> returns a string:
  the empty string when there is no match, when the pattern has no first group and when the
  first group took no part in the match, and the text of the first group otherwise.
  \<^verbatim>\<open>_findByRegex\<close> raises nothing of its own: it raises exactly when the call of
  \<^verbatim>\<open>re.search\<close>, which is outside the \<^verbatim>\<open>try\<close>, does.
\<close>

theorem findByRegex_total_on_compiled_pattern:
  "(search regex text = Inr r \<longrightarrow>
      findByRegex search text regex
      = Inr (case r of
               None \<Rightarrow> ''''
             | Some matches \<Rightarrow>
                 (case group matches 1 of
                    Inl e \<Rightarrow> ''''
                  | Inr None \<Rightarrow> ''''
                  | Inr (Some g) \<Rightarrow> g)))
   \<and> (findByRegex search text regex = Inl err \<longleftrightarrow> search regex text = Inl err)"
proof (cases "search regex text")
  case (Inl e)
  then show ?thesis by (simp add: findByRegex_def)
next
  case (Inr r0)
  show ?thesis
  proof (cases r0)
    case None
    with Inr show ?thesis by (simp add: findByRegex_def)
  next
    case (Some m)
    obtain whole groups where m: "m = Match whole groups" by (cases m)
    show ?thesis
      using Inr Some m
      by (cases groups) (auto simp: findByRegex_def split: option.splits)
  qed
qed

theorem findByRegex_total_on_compiled_pattern_witness:
  "table_search REGEX_IMAGE_URL ''nice round!'' = Inr None
   \<and> findByRegex table_search ''nice round!'' REGEX_IMAGE_URL = Inr ''''
   \<and> table_search REGEX_IMAGE_URL (comment_body bob_comment)
       = Inr (Some (Match ''https://files.peakd.com/bob.png''
                      [Some ''https://files.peakd.com/bob.png'']))
   \<and> findByRegex table_search (comment_body bob_comment) REGEX_IMAGE_URL
       = Inr ''https://files.peakd.com/bob.png''"
proof -
  have s: "table_search REGEX_IMAGE_URL ''nice round!'' = Inr None"
    by (simp add: table_search_def regex_neq bob_comment_def)
  have t: "table_search REGEX_IMAGE_URL (comment_body bob_comment)
       = Inr (Some (Match ''https://files.peakd.com/bob.png''
                      [Some ''https://files.peakd.com/bob.png'']))"
    by (simp add: table_search_def regex_neq)
  from findByRegex_total_on_compiled_pattern[of table_search REGEX_IMAGE_URL "''nice round!''" None]
    findByRegex_total_on_compiled_pattern[of table_search REGEX_IMAGE_URL "comment_body bob_comment"
      "Some (Match ''https://files.peakd.com/bob.png'' [Some ''https://files.peakd.com/bob.png''])"]
    s t
  show ?thesis by simp
qed

text \<open>
  No call of the program passes a pattern that \<^verbatim>\<open>re.search\<close> rejects. On one that it
  rejects, such as \<^verbatim>\<open>(\<close>, the exception leaves \<^verbatim>\<open>_findByRegex\<close>.
\<close>

lemma findByRegex_propagates_re_error:
  "findByRegex table_search ''abc'' ''('' = Inl ReError"
  by (simp add: findByRegex_def table_search_def)

section \<open>Properties of the renderers and of saving\<close>

lemma loadTemplateFile_eq: "loadTemplateFile disk filename = disk filename"
  by (simp add: loadTemplateFile_def split: option.splits)

text \<open>
  C8. Each renderer returns \<^verbatim>\<open>False\<close> when either of its two template files is missing,
  whatever the entries.
\<close>

theorem renderers_fail_on_missing_template:
  "(disk ''template_md_body.tpl'' = None \<or> disk ''template_md_image.tpl'' = None
      \<longrightarrow> createMarkdownFromParsedComments format disk parsedComments = Inr PyFalse)
   \<and> (disk ''template_html_body.tpl'' = None \<or> disk ''template_html_image.tpl'' = None
      \<longrightarrow> createHtmlMarkupFromParsedComments disk parsedComments = PyFalse)"
  by (auto simp: createMarkdownFromParsedComments_def createHtmlMarkupFromParsedComments_def
        loadTemplateFile_eq py_not_def Let_def)

theorem renderers_fail_on_missing_template_witness:
  "body_only_disk ''template_md_image.tpl'' = None
   \<and> body_only_disk ''template_html_image.tpl'' = None
   \<and> body_only_disk ''template_md_body.tpl'' = Some ''{images}''
   \<and> createMarkdownFromParsedComments literal_format body_only_disk [alice_entry, bob_entry]
       = Inr PyFalse
   \<and> createHtmlMarkupFromParsedComments body_only_disk [alice_entry, bob_entry] = PyFalse"
proof -
  have m: "body_only_disk ''template_md_image.tpl'' = None"
    and h: "body_only_disk ''template_html_image.tpl'' = None"
    and b: "body_only_disk ''template_md_body.tpl'' = Some ''{images}''"
    by (simp_all add: body_only_disk_def)
  from renderers_fail_on_missing_template[of body_only_disk literal_format
      "[alice_entry, bob_entry]"]
    m h b
  show ?thesis by simp
qed

text \<open>
  C9. With no name given by the caller, the file written is named by the time stamp
  followed by \<^verbatim>\<open>-GeneratedImageSheet.html\<close> in markup mode and by
  \<^verbatim>\<open>-GeneratedImageSheetmd\<close> otherwise: the name then ends in \<^verbatim>\<open>md\<close> and not in \<^verbatim>\<open>.md\<close>.
\<close>

theorem generated_file_name:
  "savedFileName stamp True None = stamp @ ''-GeneratedImageSheet.html''
   \<and> suffix ''.html'' (savedFileName stamp True None)
   \<and> savedFileName stamp False None = stamp @ ''-GeneratedImageSheetmd''
   \<and> suffix ''md'' (savedFileName stamp False None)
   \<and> \<not> suffix ''.md'' (savedFileName stamp False None)
   \<and> saveMarkdownToDisk disk stamp markdown saveAsHTMLFile None
       = (True, disk(savedFileName stamp saveAsHTMLFile None \<mapsto> markdown))"
proof -
  have html: "savedFileName stamp True None = (stamp @ ''-GeneratedImageSheet'') @ ''.html''"
    and md: "savedFileName stamp False None = (stamp @ ''-GeneratedImageShee'') @ ''tmd''"
    by (simp_all add: savedFileName_def)
  have "suffix ''.html'' (savedFileName stamp True None)"
    unfolding html by (rule suffix_appendI) simp
  moreover have "suffix ''md'' (savedFileName stamp False None)"
    unfolding md by (rule suffix_appendI) (simp add: suffix_def)
  moreover have "\<not> suffix ''.md'' (savedFileName stamp False None)"
    unfolding md by (simp add: suffix_def)
  ultimately show ?thesis
    by (simp add: savedFileName_def saveMarkdownToDisk_def)
qed

theorem generated_file_name_witness:
  "savedFileName ''01-14-2022-09-30'' True None = ''01-14-2022-09-30-GeneratedImageSheet.html''
   \<and> savedFileName ''01-14-2022-09-30'' False None = ''01-14-2022-09-30-GeneratedImageSheetmd''
   \<and> fst (saveMarkdownToDisk Map.empty ''01-14-2022-09-30'' ''# Entries'' False None)
   \<and> snd (saveMarkdownToDisk Map.empty ''01-14-2022-09-30'' ''# Entries'' False None)
         ''01-14-2022-09-30-GeneratedImageSheetmd'' = Some ''# Entries''"
  using generated_file_name[of "''01-14-2022-09-30''" Map.empty "''# Entries''" False]
  by simp

text \<open>
  C10. A renderer also returns \<^verbatim>\<open>False\<close> when one of its template files is there but
  empty, so \<^verbatim>\<open>False\<close> does not tell that a file was missing: on \<open>empty_body_disk\<close> all four
  template files exist and both renderers return \<^verbatim>\<open>False\<close>.
\<close>

theorem renderers_fail_on_empty_template:
  "(disk ''template_md_body.tpl'' = Some '''' \<or> disk ''template_md_image.tpl'' = Some ''''
      \<longrightarrow> createMarkdownFromParsedComments format disk parsedComments = Inr PyFalse)
   \<and> (disk ''template_html_body.tpl'' = Some '''' \<or> disk ''template_html_image.tpl'' = Some ''''
      \<longrightarrow> createHtmlMarkupFromParsedComments disk parsedComments = PyFalse)
   \<and> {''template_md_body.tpl'', ''template_md_image.tpl'',
       ''template_html_body.tpl'', ''template_html_image.tpl''} \<subseteq> dom empty_body_disk
   \<and> createMarkdownFromParsedComments format empty_body_disk parsedComments = Inr PyFalse
   \<and> createHtmlMarkupFromParsedComments empty_body_disk parsedComments = PyFalse"
  by (auto simp: createMarkdownFromParsedComments_def createHtmlMarkupFromParsedComments_def
        loadTemplateFile_eq py_not_def Let_def empty_body_disk_def)

theorem renderers_fail_on_empty_template_witness:
  "empty_body_disk ''template_md_body.tpl'' = Some ''''
   \<and> empty_body_disk ''template_html_body.tpl'' = Some ''''
   \<and> createMarkdownFromParsedComments literal_format empty_body_disk [alice_entry] = Inr PyFalse
   \<and> createHtmlMarkupFromParsedComments empty_body_disk [alice_entry] = PyFalse"
proof -
  have m: "empty_body_disk ''template_md_body.tpl'' = Some ''''"
    and h: "empty_body_disk ''template_html_body.tpl'' = Some ''''"
    by (simp_all add: empty_body_disk_def)
  from renderers_fail_on_empty_template[of empty_body_disk literal_format "[alice_entry]"] m h
  show ?thesis by simp
qed

end
